theory Spec2Isabelle
  imports Main "HOL-Library.Word"
begin

section \<open>Shared data model\<close>

unbundle bit_operations_syntax

type_synonym byte = "8 word"

text \<open>
  Outcomes the callers can observe beyond a returned value: \<open>LOG(FATAL)\<close> aborts the
  process, \<open>std::range_error\<close> and \<open>std::runtime_error\<close> are thrown.
\<close>

datatype error = fatal_abort | range_error | runtime_error

section \<open>Peer certificate validation (\<open>validatePeerCertNames\<close>)\<close>

text \<open>
  The numeric values of \<open>AF_INET\<close>, \<open>AF_INET6\<close> and \<open>GEN_IPADD\<close> come from the
  platform and engine headers, which the source only includes. The source compares these
  fields for equality only, so they are kept as tags; every other address family is
  \<open>AF_OTHER\<close> with its raw number.
\<close>

datatype sa_family_t = AF_INET | AF_INET6 | AF_OTHER nat

datatype gen_type =
  GEN_OTHERNAME | GEN_EMAIL | GEN_DNS | GEN_X400 | GEN_DIRNAME | GEN_EDIPARTY
  | GEN_URI | GEN_IPADD | GEN_RID

text \<open>
  One entry of the subjectAltName stack: its \<open>type\<close> tag and the octets the source reads
  through \<open>d.iPAddress\<close> (\<open>data\<close>, with \<open>length\<close> the number of octets).
\<close>

datatype general_name = GENERAL_NAME (gn_type: gen_type) (gn_data: "byte list")

text \<open>
  A certificate, as far as the source looks into it: \<open>subject_alt_name\<close> is what
  \<open>X509_get_ext_d2i(cert, NID_subject_alt_name, ...)\<close> returns (\<open>None\<close> for a null
  pointer), \<open>subject_name\<close> what \<open>X509_get_subject_name\<close> returns.
\<close>

type_synonym x509_name = string

record x509 =
  subject_alt_name :: "general_name list option"
  subject_name :: x509_name

text \<open>
  A socket address. The source reads \<open>sa_family\<close> and then reinterprets the same object
  as a \<open>sockaddr_in\<close> (reading the 4 octets of \<open>sin_addr\<close>) or as a \<open>sockaddr_in6\<close>
  (reading the 16 octets of \<open>sin6_addr\<close>), both in memory order.
\<close>

datatype sockaddr =
  Sockaddr_in (sin_addr: "byte list")
  | Sockaddr_in6 (sin6_addr: "byte list")
  | Sockaddr_other nat

fun sa_family :: "sockaddr \<Rightarrow> sa_family_t" where
  "sa_family (Sockaddr_in _) = AF_INET"
| "sa_family (Sockaddr_in6 _) = AF_INET6"
| "sa_family (Sockaddr_other n) = AF_OTHER n"

text \<open>The C types fix the sizes: \<open>in_addr\<close> has 4 octets, \<open>in6_addr\<close> has 16.\<close>

fun wf_sockaddr :: "sockaddr \<Rightarrow> bool" where
  "wf_sockaddr (Sockaddr_in a) = (length a = 4)"
| "wf_sockaddr (Sockaddr_in6 a) = (length a = 16)"
| "wf_sockaddr (Sockaddr_other n) = True"

text \<open>The lines the function writes to the log, in order.\<close>

datatype log_entry =
  Warn_NoSubjectAltName
  | Fatal_UnsupportedFamily sa_family_t
  | Warn_UnexpectedIPLength nat
  | Warn_UnableToMatch

text \<open>
  \<open>memcmp(s1, s2, n)\<close>: zero when the first \<open>n\<close> octets agree, otherwise the difference
  of the first pair of octets that differ, read as unsigned.
\<close>

definition memcmp :: "byte list \<Rightarrow> byte list \<Rightarrow> nat \<Rightarrow> int" where
  "memcmp s1 s2 n =
     (case dropWhile (\<lambda>(a, b). a = b) (zip (take n s1) (take n s2)) of
        [] \<Rightarrow> 0
      | (a, b) # _ \<Rightarrow> uint a - uint b)"

text \<open>
  The \<open>for\<close> loop over the entries (source lines 121 to 140). The result is \<open>True\<close>
  when the loop body returned true, \<open>False\<close> when the loop ran to its end; the log is
  threaded through.
\<close>

fun altNames_loop ::
  "sockaddr option \<Rightarrow> sockaddr option \<Rightarrow> general_name list \<Rightarrow> log_entry list
     \<Rightarrow> bool \<times> log_entry list" where
  "altNames_loop addr4 addr6 [] lg = (False, lg)"
| "altNames_loop addr4 addr6 (name # rest) lg =
     (if (addr4 \<noteq> None \<or> addr6 \<noteq> None) \<and> gn_type name = GEN_IPADD then
        (let rawIpStr = gn_data name; rawIpLen = length rawIpStr in
           if rawIpLen = 4 \<and> addr4 \<noteq> None then
             (if memcmp rawIpStr (sin_addr (the addr4)) rawIpLen = 0 then (True, lg)
              else altNames_loop addr4 addr6 rest lg)
           else if rawIpLen = 16 \<and> addr6 \<noteq> None then
             (if memcmp rawIpStr (sin6_addr (the addr6)) rawIpLen = 0 then (True, lg)
              else altNames_loop addr4 addr6 rest lg)
           else if rawIpLen \<noteq> 4 \<and> rawIpLen \<noteq> 16 then
             altNames_loop addr4 addr6 rest (lg @ [Warn_UnexpectedIPLength rawIpLen])
           else altNames_loop addr4 addr6 rest lg)
      else altNames_loop addr4 addr6 rest lg)"

text \<open>
  \<open>validatePeerCertNames(cert, addr, addrLen)\<close>; \<open>addr\<close> is \<open>None\<close> for a null pointer,
  \<open>addrLen\<close> is unused by the source. The result pairs what the call does (returns a
  bool, or aborts) with the log it wrote.
\<close>

definition validatePeerCertNames ::
  "'a x509_scheme \<Rightarrow> sockaddr option \<Rightarrow> (error + bool) \<times> log_entry list" where
  "validatePeerCertNames cert addr =
     (case subject_alt_name cert of
        None \<Rightarrow> (Inr False, [Warn_NoSubjectAltName])
      | Some altNames \<Rightarrow>
          (case (case addr of
                   None \<Rightarrow> Inr (None, None)
                 | Some a \<Rightarrow>
                     if sa_family a = AF_INET then Inr (Some a, None)
                     else if sa_family a = AF_INET6 then Inr (None, Some a)
                     else Inl (sa_family a)) of
             Inl family \<Rightarrow> (Inl fatal_abort, [Fatal_UnsupportedFamily family])
           | Inr (addr4, addr6) \<Rightarrow>
               (case altNames_loop addr4 addr6 altNames [] of
                  (True, lg) \<Rightarrow> (Inr True, lg)
                | (False, lg) \<Rightarrow> (Inr False, lg @ [Warn_UnableToMatch]))))"

text \<open>
  What it means for an entry to match the peer: the entry is tagged as an IP address and
  its octets are exactly the peer's, 4 octets for an IPv4 peer and 16 for an IPv6 peer.
\<close>

definition ip_entry_matches :: "sockaddr \<Rightarrow> general_name \<Rightarrow> bool" where
  "ip_entry_matches addr name =
     (gn_type name = GEN_IPADD \<and>
      (case addr of
         Sockaddr_in a \<Rightarrow> length (gn_data name) = 4 \<and> gn_data name = a
       | Sockaddr_in6 a \<Rightarrow> length (gn_data name) = 16 \<and> gn_data name = a
       | Sockaddr_other _ \<Rightarrow> False))"

text \<open>The warnings that inspecting the given entries leaves in the log.\<close>

definition length_warnings :: "general_name list \<Rightarrow> log_entry list" where
  "length_warnings names =
     map (\<lambda>n. Warn_UnexpectedIPLength (length (gn_data n)))
       (filter (\<lambda>n. gn_type n = GEN_IPADD \<and> length (gn_data n) \<noteq> 4
          \<and> length (gn_data n) \<noteq> 16) names)"

text \<open>The certificate of the example: one SAN entry, the IPv4 address 192.0.2.1.\<close>

definition cert_192_0_2_1 :: x509 where
  "cert_192_0_2_1 =
     \<lparr>subject_alt_name = Some [GENERAL_NAME GEN_IPADD [192, 0, 2, 1]],
      subject_name = ''CN=peer''\<rparr>"

section \<open>Handshake secrets (\<open>getTLSMasterKey\<close>, \<open>getTLSClientRandom\<close>)\<close>

text \<open>
  The two functions call an accessor of the TLS engine twice: once with a null buffer of
  size 0 to learn the size, once with the caller's buffer. The engine is not part of the
  source, so the accessor is a parameter: it takes the handle and the buffer it may write
  to (the empty list for the null buffer; \<open>outlen\<close> is the buffer's length) and gives
  the \<open>size_t\<close> it returns and the buffer afterwards. The \<open>size_t\<close> becomes the
  \<open>bool\<close> result by C++ conversion: true when it is not zero.
\<close>

definition getTLSMasterKey ::
  "('s \<Rightarrow> byte list \<Rightarrow> nat \<times> byte list) \<Rightarrow> 's \<Rightarrow> byte list \<Rightarrow> bool \<times> byte list" where
  "getTLSMasterKey get_master_key session keyOut =
     (let size = fst (get_master_key session []) in
        if size = length keyOut then
          (case get_master_key session keyOut of (r, keyOut') \<Rightarrow> (r \<noteq> 0, keyOut'))
        else (False, keyOut))"

definition getTLSClientRandom ::
  "('c \<Rightarrow> byte list \<Rightarrow> nat \<times> byte list) \<Rightarrow> 'c \<Rightarrow> byte list \<Rightarrow> bool \<times> byte list" where
  "getTLSClientRandom get_client_random conn randomOut =
     (let size = fst (get_client_random conn []) in
        if size = length randomOut then
          (case get_client_random conn randomOut of (r, randomOut') \<Rightarrow> (r \<noteq> 0, randomOut'))
        else (False, randomOut))"

text \<open>
  The engine's accessors as its manual documents them, used to instantiate the parameter:
  with \<open>outlen = 0\<close> the call returns the size of the secret and writes nothing;
  otherwise it copies at most \<open>outlen\<close> octets of the secret into the buffer and returns
  how many it copied.
\<close>

record ssl_session =
  master_key :: "byte list"

record ssl =
  client_random :: "byte list"

definition engine_copy_out :: "byte list \<Rightarrow> byte list \<Rightarrow> nat \<times> byte list" where
  "engine_copy_out secret out =
     (if length out = 0 then (length secret, out)
      else (let outlen = min (length out) (length secret)
            in (outlen, take outlen secret @ drop outlen out)))"

definition SSL_SESSION_get_master_key ::
  "'a ssl_session_scheme \<Rightarrow> byte list \<Rightarrow> nat \<times> byte list" where
  "SSL_SESSION_get_master_key session out = engine_copy_out (master_key session) out"

definition SSL_get_client_random :: "'a ssl_scheme \<Rightarrow> byte list \<Rightarrow> nat \<times> byte list" where
  "SSL_get_client_random conn out = engine_copy_out (client_random conn) out"

section \<open>ALPN wire encoding (\<open>encodeALPNString\<close>)\<close>

text \<open>
  The first loop (source lines 301 to 307): it throws at the first protocol longer than
  255 and otherwise adds up the \<open>unsigned int\<close> capacity, which only \<open>reserve\<close> uses.
\<close>

fun alpn_length_loop :: "string list \<Rightarrow> 32 word \<Rightarrow> error + 32 word" where
  "alpn_length_loop [] len = Inr len"
| "alpn_length_loop (proto # rest) len =
     (if length proto > 255 then Inl range_error
      else alpn_length_loop rest (len + of_nat (length proto + 1)))"

text \<open>
  The second loop (source lines 312 to 315): \<open>static_cast<char>(proto.size())\<close> keeps
  the low 8 bits of the size, as \<open>char_of\<close> does.
\<close>

fun alpn_append_loop :: "string list \<Rightarrow> string \<Rightarrow> string" where
  "alpn_append_loop [] encodedALPN = encodedALPN"
| "alpn_append_loop (proto # rest) encodedALPN =
     alpn_append_loop rest ((encodedALPN @ [char_of (length proto)]) @ proto)"

definition encodeALPNString :: "string list \<Rightarrow> error + string" where
  "encodeALPNString supportedProtocols =
     (case alpn_length_loop supportedProtocols 0 of
        Inl e \<Rightarrow> Inl e
      | Inr len \<Rightarrow> Inr (alpn_append_loop supportedProtocols []))"

text \<open>
  The decoder of the round-trip claim, written from the specification's words (the source
  has none): split the octets on their length prefixes; \<open>None\<close> when a prefix promises
  more octets than remain.
\<close>

fun decodeALPN :: "string \<Rightarrow> string list option" where
  "decodeALPN [] = Some []"
| "decodeALPN (n # rest) =
     (if length rest < of_char n then None
      else map_option ((#) (take (of_char n) rest)) (decodeALPN (drop (of_char n) rest)))"

section \<open>Cipher name cache (\<open>getCipherName\<close>)\<close>

text \<open>
  The engine calls made while the table is built are parameters, gathered in a record:
  \<open>SSL_CTX_new(TLS_server_method())\<close> and \<open>SSL_new(ctx)\<close> give \<open>None\<close> for a null
  pointer; \<open>SSL_get_ciphers\<close> gives the cipher stack as a list.
\<close>

datatype ssl_cipher =
  SSL_CIPHER (SSL_CIPHER_get_id: "64 word") (SSL_CIPHER_get_name: string)

record ('ctx, 'conn) tls_engine =
  SSL_CTX_new :: "'ctx option"
  SSL_new :: "'ctx \<Rightarrow> 'conn option"
  SSL_get_ciphers :: "'conn \<Rightarrow> ssl_cipher list"

type_synonym cipher_table = "16 word \<rightharpoonup> string"

fun cipher_loop :: "ssl_cipher list \<Rightarrow> cipher_table \<Rightarrow> cipher_table" where
  "cipher_loop [] ret = ret"
| "cipher_loop (c # sk) ret =
     (let id = SSL_CIPHER_get_id c;
          cipherCode = (ucast (id AND 0xffff) :: 16 word)
      in cipher_loop sk (ret(cipherCode \<mapsto> SSL_CIPHER_get_name c)))"

definition getOpenSSLCipherNames :: "('ctx, 'conn) tls_engine \<Rightarrow> cipher_table" where
  "getOpenSSLCipherNames engine =
     (case SSL_CTX_new engine of
        None \<Rightarrow> Map.empty
      | Some ctx \<Rightarrow>
          (case SSL_new engine ctx of
             None \<Rightarrow> Map.empty
           | Some conn \<Rightarrow> cipher_loop (SSL_get_ciphers engine conn) Map.empty))"

text \<open>
  \<open>getCipherName\<close> keeps the table in a function-local static: \<open>None\<close> before the
  first call, the built table ever after. The state is passed in and returned.
\<close>

definition getCipherName ::
  "('ctx, 'conn) tls_engine \<Rightarrow> cipher_table option \<Rightarrow> 16 word
     \<Rightarrow> string \<times> cipher_table option" where
  "getCipherName engine static cipherCode =
     (let cipherCodeToName =
            (case static of None \<Rightarrow> getOpenSSLCipherNames engine | Some t \<Rightarrow> t)
      in (case cipherCodeToName cipherCode of
            Some name \<Rightarrow> (name, Some cipherCodeToName)
          | None \<Rightarrow> ('''', Some cipherCodeToName)))"

section \<open>Subject names of a PEM file (\<open>subjectNamesInPEMFile\<close>)\<close>

text \<open>
  A source BIO is the sequence of results its successive \<open>PEM_read_bio_X509\<close> calls will
  give: a certificate, or \<open>None\<close> for a block that does not decode. Reading past the end
  gives the null pointer too. The files that can be opened are a map from names to BIOs.
\<close>

type_synonym bio = "x509 option list"

definition PEM_read_bio_X509 :: "bio \<Rightarrow> x509 option \<times> bio" where
  "PEM_read_bio_X509 source = (case source of [] \<Rightarrow> (None, []) | r # rest \<Rightarrow> (r, rest))"

definition BIO_new_file :: "(string \<rightharpoonup> bio) \<Rightarrow> string \<Rightarrow> bio option" where
  "BIO_new_file files filename = files filename"

definition X509_NAME_dup :: "x509_name \<Rightarrow> x509_name" where
  "X509_NAME_dup name = name"

function forEachX509 :: "bio \<Rightarrow> (x509 \<Rightarrow> 'a \<Rightarrow> 'a) \<Rightarrow> 'a \<Rightarrow> 'a" where
  "forEachX509 source cb acc =
     (case PEM_read_bio_X509 source of
        (None, _) \<Rightarrow> acc
      | (Some x509, source') \<Rightarrow> forEachX509 source' cb (cb x509 acc))"
  by pat_completeness auto
termination
  by (relation "measure (\<lambda>(source, cb, acc). length source)")
    (auto simp: PEM_read_bio_X509_def split: list.splits)

declare forEachX509.simps [simp del]

definition getSubjectNamesFromBIO :: "bio \<Rightarrow> x509_name list" where
  "getSubjectNamesFromBIO b =
     forEachX509 b (\<lambda>name ret. ret @ [X509_NAME_dup (subject_name name)]) []"

definition subjectNamesInPEMFile :: "(string \<rightharpoonup> bio) \<Rightarrow> string \<Rightarrow> error + x509_name list" where
  "subjectNamesInPEMFile files filename =
     (case BIO_new_file files filename of
        None \<Rightarrow> Inl runtime_error
      | Some b \<Rightarrow> Inr (getSubjectNamesFromBIO b))"

section \<open>Properties of the peer certificate validation\<close>

lemma memcmp_eq_iff:
  assumes "length s1 = n" and "length s2 = n"
  shows "(memcmp s1 s2 n = 0) = (s1 = s2)"
proof -
  let ?d = "dropWhile (\<lambda>(a, b). a = b) (zip s1 s2)"
  have m: "memcmp s1 s2 n = (case ?d of [] \<Rightarrow> 0 | (a, b) # _ \<Rightarrow> uint a - uint b)"
    using assms by (simp add: memcmp_def)
  show ?thesis
  proof (cases ?d)
    case Nil
    then have "\<forall>p\<in>set (zip s1 s2). (\<lambda>(a, b). a = b) p"
      by (simp add: dropWhile_eq_Nil_conv)
    then have "s1 = s2"
      using assms by (auto simp: list_eq_iff_zip_eq)
    moreover have "memcmp s1 s2 n = 0"
      unfolding m Nil by simp
    ultimately show ?thesis by simp
  next
    case (Cons p ps)
    obtain a b where p: "p = (a, b)" by (cases p)
    have "\<not> (\<lambda>(a, b). a = b) (hd ?d)"
      by (rule hd_dropWhile) (simp add: Cons)
    then have ab: "a \<noteq> b" by (simp add: Cons p)
    have "(a, b) \<in> set ?d" by (simp add: Cons p)
    then have "(a, b) \<in> set (zip s1 s2)" by (rule set_dropWhileD)
    then have "s1 \<noteq> s2" using ab by (auto simp: set_zip)
    moreover have "memcmp s1 s2 n \<noteq> 0"
      unfolding m Cons p using ab by (simp add: word_uint_eq_iff)
    ultimately show ?thesis by simp
  qed
qed

lemma loop_skip:
  assumes "wf_sockaddr addr"
    and "(a4 = Some addr \<and> a6 = None \<and> sa_family addr = AF_INET) \<or> (a4 = None \<and> a6 = Some addr \<and> sa_family addr = AF_INET6)"
    and "\<forall>n\<in>set pre. \<not> ip_entry_matches addr n"
  shows "altNames_loop a4 a6 (pre @ rest) lg = altNames_loop a4 a6 rest (lg @ length_warnings pre)"
  using assms(3)
proof (induction pre arbitrary: lg)
  case Nil
  then show ?case by (simp add: length_warnings_def)
next
  case (Cons n pre)
  then show ?case using assms(1,2)
    by (cases addr) (auto simp: length_warnings_def ip_entry_matches_def memcmp_eq_iff Let_def)
qed

lemma loop_hit:
  assumes "wf_sockaddr addr"
    and "(a4 = Some addr \<and> a6 = None \<and> sa_family addr = AF_INET) \<or> (a4 = None \<and> a6 = Some addr \<and> sa_family addr = AF_INET6)"
    and "ip_entry_matches addr m"
  shows "altNames_loop a4 a6 (m # post) lg = (True, lg)"
  using assms
  by (cases addr) (auto simp: ip_entry_matches_def memcmp_eq_iff Let_def)

lemma loop_null: "altNames_loop None None names lg = (False, lg)"
  by (induction names arbitrary: lg) auto

lemma loop_first_hit:
  assumes "wf_sockaddr addr"
    and "(a4 = Some addr \<and> a6 = None \<and> sa_family addr = AF_INET) \<or> (a4 = None \<and> a6 = Some addr \<and> sa_family addr = AF_INET6)"
    and "\<forall>n\<in>set pre. \<not> ip_entry_matches addr n"
    and "ip_entry_matches addr m"
  shows "altNames_loop a4 a6 (pre @ m # post) lg = (True, lg @ length_warnings pre)"
  using loop_skip [OF assms(1,2,3)] loop_hit [OF assms(1,2,4)] by simp

lemma loop_no_hit:
  assumes "wf_sockaddr addr"
    and "(a4 = Some addr \<and> a6 = None \<and> sa_family addr = AF_INET) \<or> (a4 = None \<and> a6 = Some addr \<and> sa_family addr = AF_INET6)"
    and "\<forall>n\<in>set names. \<not> ip_entry_matches addr n"
  shows "altNames_loop a4 a6 names lg = (False, lg @ length_warnings names)"
  using loop_skip [OF assms(1,2,3), of "[]" lg] by simp

lemma validate_unfold:
  assumes "subject_alt_name cert = Some names"
    and "sa_family addr = AF_INET \<or> sa_family addr = AF_INET6"
  shows "\<exists>a4 a6. ((a4 = Some addr \<and> a6 = None \<and> sa_family addr = AF_INET) \<or> (a4 = None \<and> a6 = Some addr \<and> sa_family addr = AF_INET6))
     \<and> validatePeerCertNames cert (Some addr) =
        (case altNames_loop a4 a6 names [] of
           (True, lg) \<Rightarrow> (Inr True, lg)
         | (False, lg) \<Rightarrow> (Inr False, lg @ [Warn_UnableToMatch]))"
  using assms by (cases addr) (auto simp: validatePeerCertNames_def)

lemma validate_first_hit:
  assumes "subject_alt_name cert = Some (pre @ m # post)"
    and "sa_family addr = AF_INET \<or> sa_family addr = AF_INET6"
    and "wf_sockaddr addr"
    and "\<forall>n\<in>set pre. \<not> ip_entry_matches addr n"
    and "ip_entry_matches addr m"
  shows "validatePeerCertNames cert (Some addr) = (Inr True, length_warnings pre)"
proof -
  obtain a4 a6 where sel: "(a4 = Some addr \<and> a6 = None \<and> sa_family addr = AF_INET) \<or> (a4 = None \<and> a6 = Some addr \<and> sa_family addr = AF_INET6)"
    and v: "validatePeerCertNames cert (Some addr) =
        (case altNames_loop a4 a6 (pre @ m # post) [] of
           (True, lg) \<Rightarrow> (Inr True, lg)
         | (False, lg) \<Rightarrow> (Inr False, lg @ [Warn_UnableToMatch]))"
    using validate_unfold [OF assms(1,2)] by blast
  show ?thesis
    unfolding v loop_first_hit [OF assms(3) sel assms(4,5)] by simp
qed

lemma validate_no_hit:
  assumes "subject_alt_name cert = Some names"
    and "sa_family addr = AF_INET \<or> sa_family addr = AF_INET6"
    and "wf_sockaddr addr"
    and "\<forall>n\<in>set names. \<not> ip_entry_matches addr n"
  shows "validatePeerCertNames cert (Some addr)
           = (Inr False, length_warnings names @ [Warn_UnableToMatch])"
proof -
  obtain a4 a6 where sel: "(a4 = Some addr \<and> a6 = None \<and> sa_family addr = AF_INET) \<or> (a4 = None \<and> a6 = Some addr \<and> sa_family addr = AF_INET6)"
    and v: "validatePeerCertNames cert (Some addr) =
        (case altNames_loop a4 a6 names [] of
           (True, lg) \<Rightarrow> (Inr True, lg)
         | (False, lg) \<Rightarrow> (Inr False, lg @ [Warn_UnableToMatch]))"
    using validate_unfold [OF assms(1,2)] by blast
  show ?thesis
    unfolding v loop_no_hit [OF assms(3) sel assms(4)] by simp
qed

text \<open>
  C1. For a certificate with a subjectAltName extension and an IPv4 or IPv6 peer address,
  the call returns true exactly when some entry is tagged as an IP address and equals the
  peer's octets (4 octets against an IPv4 peer, 16 against an IPv6 peer). The entries are
  inspected in certificate order: at the first matching entry the call returns true, and
  the log holds the warnings of the entries before it only, whatever follows it; with no
  matching entry it returns false after inspecting them all. A certificate with the SAN
  IPv4 entry 192.0.2.1 validates peer 192.0.2.1 and rejects peer 192.0.2.2.
\<close>

theorem validatePeerCertNames_first_exact_ip_match:
  "(subject_alt_name cert = Some names
      \<and> (sa_family addr = AF_INET \<or> sa_family addr = AF_INET6) \<and> wf_sockaddr addr
    \<longrightarrow> fst (validatePeerCertNames cert (Some addr))
          = Inr (\<exists>n\<in>set names. ip_entry_matches addr n)
      \<and> (\<forall>pre m post.
            names = pre @ m # post \<and> (\<forall>n\<in>set pre. \<not> ip_entry_matches addr n)
              \<and> ip_entry_matches addr m
            \<longrightarrow> validatePeerCertNames cert (Some addr) = (Inr True, length_warnings pre))
      \<and> ((\<forall>n\<in>set names. \<not> ip_entry_matches addr n)
            \<longrightarrow> validatePeerCertNames cert (Some addr)
                  = (Inr False, length_warnings names @ [Warn_UnableToMatch])))
   \<and> fst (validatePeerCertNames cert_192_0_2_1 (Some (Sockaddr_in [192, 0, 2, 1]))) = Inr True
   \<and> fst (validatePeerCertNames cert_192_0_2_1 (Some (Sockaddr_in [192, 0, 2, 2]))) = Inr False"
proof (intro conjI impI)
  assume h: "subject_alt_name cert = Some names
      \<and> (sa_family addr = AF_INET \<or> sa_family addr = AF_INET6) \<and> wf_sockaddr addr"
  then have san: "subject_alt_name cert = Some names"
    and fam: "sa_family addr = AF_INET \<or> sa_family addr = AF_INET6"
    and wf: "wf_sockaddr addr" by simp_all
  show "fst (validatePeerCertNames cert (Some addr))
          = Inr (\<exists>n\<in>set names. ip_entry_matches addr n)"
  proof (cases "\<exists>n\<in>set names. ip_entry_matches addr n")
    case True
    then obtain pre m post where sp: "names = pre @ m # post" and m: "ip_entry_matches addr m"
      and pre: "\<forall>n\<in>set pre. \<not> ip_entry_matches addr n"
      using split_list_first_prop [of names "ip_entry_matches addr"] by blast
    show ?thesis
      using validate_first_hit [OF san [unfolded sp] fam wf pre m] True by simp
  next
    case False
    then have "\<forall>n\<in>set names. \<not> ip_entry_matches addr n" by simp
    from validate_no_hit [OF san fam wf this] False show ?thesis by simp
  qed
  show "\<forall>pre m post.
            names = pre @ m # post \<and> (\<forall>n\<in>set pre. \<not> ip_entry_matches addr n)
              \<and> ip_entry_matches addr m
            \<longrightarrow> validatePeerCertNames cert (Some addr) = (Inr True, length_warnings pre)"
    using validate_first_hit [OF _ fam wf] san by blast
  assume "\<forall>n\<in>set names. \<not> ip_entry_matches addr n"
  then show "validatePeerCertNames cert (Some addr)
                  = (Inr False, length_warnings names @ [Warn_UnableToMatch])"
    by (rule validate_no_hit [OF san fam wf])
next
  show "fst (validatePeerCertNames cert_192_0_2_1 (Some (Sockaddr_in [192, 0, 2, 1]))) = Inr True"
    by (simp add: validatePeerCertNames_def cert_192_0_2_1_def memcmp_def)
  show "fst (validatePeerCertNames cert_192_0_2_1 (Some (Sockaddr_in [192, 0, 2, 2]))) = Inr False"
    by (simp add: validatePeerCertNames_def cert_192_0_2_1_def memcmp_def)
qed

theorem validatePeerCertNames_first_exact_ip_match_witness:
  "validatePeerCertNames
     \<lparr>subject_alt_name = Some [GENERAL_NAME GEN_DNS [1, 2, 3, 4],
        GENERAL_NAME GEN_IPADD [10, 0, 0],
        GENERAL_NAME GEN_IPADD [192, 0, 2, 7],
        GENERAL_NAME GEN_IPADD [192, 0, 2, 1],
        GENERAL_NAME GEN_IPADD [9, 9, 9, 9, 9]], subject_name = ''CN=peer''\<rparr>
     (Some (Sockaddr_in [192, 0, 2, 1]))
   = (Inr True, [Warn_UnexpectedIPLength 3])"
proof -
  let ?pre = "[GENERAL_NAME GEN_DNS [1, 2, 3, 4], GENERAL_NAME GEN_IPADD [10, 0, 0],
        GENERAL_NAME GEN_IPADD [192, 0, 2, 7]]"
  let ?m = "GENERAL_NAME GEN_IPADD [192, 0, 2, 1]"
  let ?post = "[GENERAL_NAME GEN_IPADD [9, 9, 9, 9, 9]]"
  let ?cert = "\<lparr>subject_alt_name = Some (?pre @ ?m # ?post), subject_name = ''CN=peer''\<rparr>"
  let ?addr = "Sockaddr_in [192, 0, 2, 1]"
  have pre: "\<forall>n\<in>set ?pre. \<not> ip_entry_matches ?addr n"
    by (simp add: ip_entry_matches_def)
  have m: "ip_entry_matches ?addr ?m"
    by (simp add: ip_entry_matches_def)
  have hyp: "subject_alt_name ?cert = Some (?pre @ ?m # ?post)
      \<and> (sa_family ?addr = AF_INET \<or> sa_family ?addr = AF_INET6) \<and> wf_sockaddr ?addr"
    by simp
  note t = validatePeerCertNames_first_exact_ip_match [of ?cert "?pre @ ?m # ?post" ?addr]
  have "validatePeerCertNames ?cert (Some ?addr) = (Inr True, length_warnings ?pre)"
    by (rule t [THEN conjunct1, THEN mp, OF hyp, THEN conjunct2, THEN conjunct1,
          rule_format, of ?pre ?m ?post]) (rule conjI refl pre m)+
  then show ?thesis by (simp add: length_warnings_def)
qed

text \<open>
  C2. On a certificate without a subjectAltName extension the call returns false for
  every peer address (null, IPv4, IPv6 or any other family) and every subject name: it
  is a validation failure, not an error, and the Common Name is never consulted.
\<close>

theorem validatePeerCertNames_no_san:
  "subject_alt_name cert = None
     \<Longrightarrow> validatePeerCertNames cert addr = (Inr False, [Warn_NoSubjectAltName])"
  by (simp add: validatePeerCertNames_def)

theorem validatePeerCertNames_no_san_witness:
  "validatePeerCertNames \<lparr>subject_alt_name = None, subject_name = ''192.0.2.1''\<rparr>
     (Some (Sockaddr_in [192, 0, 2, 1])) = (Inr False, [Warn_NoSubjectAltName])"
  using validatePeerCertNames_no_san
    [of "\<lparr>subject_alt_name = None, subject_name = ''192.0.2.1''\<rparr>" "Some (Sockaddr_in [192, 0, 2, 1])"]
  by simp

text \<open>
  An address of an unsupported family does not abort the call when the certificate has no
  subjectAltName extension: the missing extension is found first, and the call returns
  false.
\<close>

theorem validatePeerCertNames_unsupported_family_no_san:
  "sa_family (Sockaddr_other 1) \<noteq> AF_INET \<and> sa_family (Sockaddr_other 1) \<noteq> AF_INET6
   \<and> validatePeerCertNames \<lparr>subject_alt_name = None, subject_name = ''CN=peer''\<rparr>
       (Some (Sockaddr_other 1)) = (Inr False, [Warn_NoSubjectAltName])"
  by (simp add: validatePeerCertNames_def)

text \<open>
  C3, as amended. When the certificate has a subjectAltName extension and the peer
  address is not null and of a family that is neither IPv4 nor IPv6, the call aborts
  fatally instead of returning; when the family is IPv4 or IPv6 the call never aborts, it
  returns a bool.
\<close>

theorem validatePeerCertNames_fatal_family:
  "(subject_alt_name cert = Some names
      \<and> sa_family addr \<noteq> AF_INET \<and> sa_family addr \<noteq> AF_INET6
    \<longrightarrow> validatePeerCertNames cert (Some addr)
          = (Inl fatal_abort, [Fatal_UnsupportedFamily (sa_family addr)]))
   \<and> (sa_family addr = AF_INET \<or> sa_family addr = AF_INET6
    \<longrightarrow> (\<exists>b. fst (validatePeerCertNames cert (Some addr)) = Inr b))"
  by (cases addr)
    (auto simp: validatePeerCertNames_def split: option.splits prod.splits bool.splits)

theorem validatePeerCertNames_fatal_family_witness:
  "validatePeerCertNames
       \<lparr>subject_alt_name = Some [GENERAL_NAME GEN_DNS [1]], subject_name = ''CN=peer''\<rparr>
       (Some (Sockaddr_other 1))
     = (Inl fatal_abort, [Fatal_UnsupportedFamily (AF_OTHER 1)])
   \<and> (\<exists>b. fst (validatePeerCertNames
         \<lparr>subject_alt_name = Some [GENERAL_NAME GEN_DNS [1]], subject_name = ''CN=peer''\<rparr>
         (Some (Sockaddr_in [192, 0, 2, 1]))) = Inr b)"
  using validatePeerCertNames_fatal_family
      [of "\<lparr>subject_alt_name = Some [GENERAL_NAME GEN_DNS [1]], subject_name = ''CN=peer''\<rparr>"
          "[GENERAL_NAME GEN_DNS [1]]" "Sockaddr_other 1"]
    validatePeerCertNames_fatal_family
      [of "\<lparr>subject_alt_name = Some [GENERAL_NAME GEN_DNS [1]], subject_name = ''CN=peer''\<rparr>"
          "[GENERAL_NAME GEN_DNS [1]]" "Sockaddr_in [192, 0, 2, 1]"]
  by simp

text \<open>
  C10. With a null peer address the call returns false for every certificate, without
  aborting: no entry can match, and the only log line is the warning of the failure.
\<close>

theorem validatePeerCertNames_null_addr:
  "validatePeerCertNames cert None
     = (Inr False,
        [case subject_alt_name cert of
           None \<Rightarrow> Warn_NoSubjectAltName
         | Some altNames \<Rightarrow> Warn_UnableToMatch])"
  by (simp add: validatePeerCertNames_def loop_null split: option.splits)

section \<open>Properties of the handshake secret accessors\<close>

lemma engine_copy_out_size: "fst (engine_copy_out secret []) = length secret"
  by (simp add: engine_copy_out_def)

lemma engine_copy_out_exact:
  "length out = length secret \<Longrightarrow> out \<noteq> []
     \<Longrightarrow> engine_copy_out secret out = (length secret, secret)"
  by (auto simp: engine_copy_out_def)

text \<open>
  A session whose master key is empty reports size 0; with an empty buffer the sizes are
  equal, and still the call returns false, since the engine's count of 0 becomes the
  result.
\<close>

theorem getTLSMasterKey_empty_key_empty_buffer:
  "fst (SSL_SESSION_get_master_key \<lparr>master_key = []\<rparr> []) = length ([] :: byte list)
   \<and> getTLSMasterKey SSL_SESSION_get_master_key \<lparr>master_key = []\<rparr> [] = (False, [])"
  by (simp add: getTLSMasterKey_def SSL_SESSION_get_master_key_def engine_copy_out_def)

text \<open>
  C4, as amended. Whatever the engine, both functions return false and leave the buffer
  alone whenever the buffer size differs from the size the engine reports (size 0 and
  oversized buffers included), and return false for an empty buffer. With the engine as
  documented they succeed, the buffer then holding the whole secret, exactly when the
  sizes are equal and not zero.
\<close>

theorem getTLS_secret_exact_size:
  "(fst (get_master_key session []) \<noteq> length keyOut
      \<longrightarrow> getTLSMasterKey get_master_key session keyOut = (False, keyOut))
   \<and> (fst (get_client_random conn []) \<noteq> length randomOut
      \<longrightarrow> getTLSClientRandom get_client_random conn randomOut = (False, randomOut))
   \<and> getTLSMasterKey SSL_SESSION_get_master_key sess keyOut
       = (if length keyOut = fst (SSL_SESSION_get_master_key sess []) \<and> length keyOut \<noteq> 0
          then (True, master_key sess) else (False, keyOut))
   \<and> getTLSClientRandom SSL_get_client_random c randomOut
       = (if length randomOut = fst (SSL_get_client_random c []) \<and> length randomOut \<noteq> 0
          then (True, client_random c) else (False, randomOut))
   \<and> fst (getTLSMasterKey get_master_key session []) = False
   \<and> fst (getTLSClientRandom get_client_random conn []) = False"
proof (intro conjI impI)
  show "fst (getTLSMasterKey get_master_key session []) = False"
    by (simp add: getTLSMasterKey_def Let_def split: prod.splits)
next
  show "fst (getTLSClientRandom get_client_random conn []) = False"
    by (simp add: getTLSClientRandom_def Let_def split: prod.splits)
next
  assume "fst (get_master_key session []) \<noteq> length keyOut"
  then show "getTLSMasterKey get_master_key session keyOut = (False, keyOut)"
    by (simp add: getTLSMasterKey_def)
next
  assume "fst (get_client_random conn []) \<noteq> length randomOut"
  then show "getTLSClientRandom get_client_random conn randomOut = (False, randomOut)"
    by (simp add: getTLSClientRandom_def)
next
  show "getTLSMasterKey SSL_SESSION_get_master_key sess keyOut
       = (if length keyOut = fst (SSL_SESSION_get_master_key sess []) \<and> length keyOut \<noteq> 0
          then (True, master_key sess) else (False, keyOut))"
  proof (cases "keyOut = []")
    case True
    then show ?thesis
      by (simp add: getTLSMasterKey_def SSL_SESSION_get_master_key_def engine_copy_out_def)
  next
    case False
    then show ?thesis
      by (auto simp: getTLSMasterKey_def SSL_SESSION_get_master_key_def
          engine_copy_out_size engine_copy_out_exact)
  qed
next
  show "getTLSClientRandom SSL_get_client_random c randomOut
       = (if length randomOut = fst (SSL_get_client_random c []) \<and> length randomOut \<noteq> 0
          then (True, client_random c) else (False, randomOut))"
  proof (cases "randomOut = []")
    case True
    then show ?thesis
      by (simp add: getTLSClientRandom_def SSL_get_client_random_def engine_copy_out_def)
  next
    case False
    then show ?thesis
      by (auto simp: getTLSClientRandom_def SSL_get_client_random_def
          engine_copy_out_size engine_copy_out_exact)
  qed
qed

theorem getTLS_secret_exact_size_witness:
  "getTLSMasterKey SSL_SESSION_get_master_key \<lparr>master_key = replicate 48 7\<rparr> (replicate 47 0)
     = (False, replicate 47 0)
   \<and> getTLSClientRandom SSL_get_client_random \<lparr>client_random = replicate 32 9\<rparr> (replicate 33 0)
     = (False, replicate 33 0)
   \<and> getTLSMasterKey SSL_SESSION_get_master_key \<lparr>master_key = replicate 48 7\<rparr> (replicate 48 0)
     = (True, replicate 48 7)"
proof -
  note t = getTLS_secret_exact_size
    [of SSL_SESSION_get_master_key "\<lparr>master_key = replicate 48 7\<rparr>" "replicate 47 0"
        SSL_get_client_random "\<lparr>client_random = replicate 32 9\<rparr>" "replicate 33 0"
        "\<lparr>master_key = replicate 48 7\<rparr>" "\<lparr>client_random = replicate 32 9\<rparr>"]
  have s1: "fst (SSL_SESSION_get_master_key \<lparr>master_key = replicate 48 7\<rparr> []) = 48"
    by (simp add: SSL_SESSION_get_master_key_def engine_copy_out_size)
  have s2: "fst (SSL_get_client_random \<lparr>client_random = replicate 32 9\<rparr> []) = 32"
    by (simp add: SSL_get_client_random_def engine_copy_out_size)
  have a: "getTLSMasterKey SSL_SESSION_get_master_key \<lparr>master_key = replicate 48 7\<rparr>
      (replicate 47 0) = (False, replicate 47 0)"
    using t [THEN conjunct1] s1 by simp
  have b: "getTLSClientRandom SSL_get_client_random \<lparr>client_random = replicate 32 9\<rparr>
      (replicate 33 0) = (False, replicate 33 0)"
    using t [THEN conjunct2, THEN conjunct1] s2 by simp
  have c: "getTLSMasterKey SSL_SESSION_get_master_key \<lparr>master_key = replicate 48 7\<rparr>
      (replicate 48 0) = (True, replicate 48 7)"
    using getTLS_secret_exact_size
      [of SSL_SESSION_get_master_key "\<lparr>master_key = replicate 48 7\<rparr>" "replicate 48 0"
        SSL_get_client_random "\<lparr>client_random = replicate 32 9\<rparr>" "replicate 33 0"
        "\<lparr>master_key = replicate 48 7\<rparr>" "\<lparr>client_random = replicate 32 9\<rparr>",
       THEN conjunct2, THEN conjunct2, THEN conjunct1] s1
    by simp
  from a b c show ?thesis by simp
qed

section \<open>Properties of the ALPN encoding\<close>

lemma alpn_length_loop_ok:
  "\<forall>p\<in>set names. length p \<le> 255 \<Longrightarrow> \<exists>len. alpn_length_loop names l = Inr len"
  by (induction names arbitrary: l) auto

lemma alpn_length_loop_error:
  "\<exists>p\<in>set names. 255 < length p \<Longrightarrow> alpn_length_loop names l = Inl range_error"
  by (induction names arbitrary: l) auto

lemma alpn_append_loop_concat:
  "alpn_append_loop names acc = acc @ concat (map (\<lambda>p. char_of (length p) # p) names)"
  by (induction names arbitrary: acc) auto

lemma encodeALPNString_ok:
  assumes "\<forall>p\<in>set names. length p \<le> 255"
  shows "encodeALPNString names = Inr (concat (map (\<lambda>p. char_of (length p) # p) names))"
proof -
  obtain len where "alpn_length_loop names 0 = Inr len"
    using alpn_length_loop_ok [OF assms] by blast
  then show ?thesis
    by (simp add: encodeALPNString_def alpn_append_loop_concat)
qed

lemma encodeALPNString_error:
  assumes "\<exists>p\<in>set names. 255 < length p"
  shows "encodeALPNString names = Inl range_error"
  by (simp add: encodeALPNString_def alpn_length_loop_error [OF assms])

lemma of_char_length_prefix:
  "length p \<le> 255 \<Longrightarrow> (of_char (char_of (length p)) :: nat) = length p"
  by simp

lemma decodeALPN_concat:
  "\<forall>p\<in>set names. length p \<le> 255
     \<Longrightarrow> decodeALPN (concat (map (\<lambda>p. char_of (length p) # p) names)) = Some names"
  by (induction names) (auto simp: of_char_length_prefix)

text \<open>
  C5. For every sequence of protocol names of at most 255 octets each, encoding succeeds
  and splitting the output on its length prefixes gives back exactly the sequence, in
  order; so no other such sequence has the same encoding.
\<close>

theorem encodeALPNString_roundtrip:
  assumes "\<forall>p\<in>set names. length p \<le> 255"
  shows "\<exists>enc. encodeALPNString names = Inr enc \<and> decodeALPN enc = Some names
           \<and> (\<forall>names'. (\<forall>p\<in>set names'. length p \<le> 255)
                 \<and> encodeALPNString names' = Inr enc \<longrightarrow> names' = names)"
proof -
  let ?enc = "concat (map (\<lambda>p. char_of (length p) # p) names)"
  have e: "encodeALPNString names = Inr ?enc"
    by (rule encodeALPNString_ok [OF assms])
  have d: "decodeALPN ?enc = Some names"
    by (rule decodeALPN_concat [OF assms])
  have "names' = names"
    if b: "\<forall>p\<in>set names'. length p \<le> 255" and e': "encodeALPNString names' = Inr ?enc"
    for names'
  proof -
    have "?enc = concat (map (\<lambda>p. char_of (length p) # p) names')"
      using encodeALPNString_ok [OF b] e' by simp
    then have "decodeALPN ?enc = Some names'"
      using decodeALPN_concat [OF b] by simp
    with d show ?thesis by simp
  qed
  with e d show ?thesis by blast
qed

theorem encodeALPNString_roundtrip_witness:
  "encodeALPNString [''h2'', ''http/1.1'', ''''] = Inr (CHR 0x02 # ''h2'' @ CHR 0x08 # ''http/1.1'' @ [CHR 0x00])
   \<and> decodeALPN (CHR 0x02 # ''h2'' @ CHR 0x08 # ''http/1.1'' @ [CHR 0x00]) = Some [''h2'', ''http/1.1'', '''']"
proof -
  have b: "\<forall>p\<in>set [''h2'', ''http/1.1'', '''']. length p \<le> 255" by simp
  have e: "encodeALPNString [''h2'', ''http/1.1'', '''']
      = Inr (CHR 0x02 # ''h2'' @ CHR 0x08 # ''http/1.1'' @ [CHR 0x00])"
    by code_simp
  obtain enc where "encodeALPNString [''h2'', ''http/1.1'', ''''] = Inr enc"
    and "decodeALPN enc = Some [''h2'', ''http/1.1'', '''']"
    using encodeALPNString_roundtrip [OF b] by blast
  with e show ?thesis by simp
qed

text \<open>
  C6. For every sequence of protocol names of at most 255 octets each, the output is the
  concatenation, in input order, of one octet equal to the name's length followed by the
  name's octets, and nothing else: no terminator, no count. The encoding of the single
  name h2 is the three octets 0x02, h, 2.
\<close>

theorem encodeALPNString_length_prefixed:
  "((\<forall>p\<in>set names. length p \<le> 255)
      \<longrightarrow> encodeALPNString names = Inr (concat (map (\<lambda>p. char_of (length p) # p) names))
        \<and> (\<forall>p\<in>set names. (of_char (char_of (length p) :: char) :: nat) = length p))
   \<and> encodeALPNString [''h2''] = Inr [CHR 0x02, CHR ''h'', CHR ''2'']"
proof (intro conjI impI)
  assume b: "\<forall>p\<in>set names. length p \<le> 255"
  show "encodeALPNString names = Inr (concat (map (\<lambda>p. char_of (length p) # p) names))"
    by (rule encodeALPNString_ok [OF b])
  show "\<forall>p\<in>set names. (of_char (char_of (length p) :: char) :: nat) = length p"
    using b by (blast intro: of_char_length_prefix)
next
  show "encodeALPNString [''h2''] = Inr [CHR 0x02, CHR ''h'', CHR ''2'']"
    by code_simp
qed

theorem encodeALPNString_length_prefixed_witness:
  "encodeALPNString [''h2'', ''http/1.1'']
     = Inr [CHR 0x02, CHR ''h'', CHR ''2'',
            CHR 0x08, CHR ''h'', CHR ''t'', CHR ''t'', CHR ''p'', CHR ''/'', CHR ''1'', CHR ''.'', CHR ''1'']"
proof -
  have b: "\<forall>p\<in>set [''h2'', ''http/1.1'']. length p \<le> 255" by simp
  have c: "concat (map (\<lambda>p. char_of (length p) # p) [''h2'', ''http/1.1''])
      = [CHR 0x02, CHR ''h'', CHR ''2'',
         CHR 0x08, CHR ''h'', CHR ''t'', CHR ''t'', CHR ''p'', CHR ''/'', CHR ''1'', CHR ''.'', CHR ''1'']"
    by code_simp
  from encodeALPNString_length_prefixed
    [of "[''h2'', ''http/1.1'']", THEN conjunct1, THEN mp, OF b]
  show ?thesis unfolding c by (rule conjunct1)
qed

text \<open>
  C7. Encoding throws the range error if and only if some name is longer than 255 octets,
  and gives an output if and only if none is: a name that is too long is never truncated.
  A single name of 256 octets fails.
\<close>

theorem encodeALPNString_fails_iff_too_long:
  "(encodeALPNString names = Inl range_error) = (\<exists>p\<in>set names. 255 < length p)
   \<and> (\<exists>enc. encodeALPNString names = Inr enc) = (\<forall>p\<in>set names. length p \<le> 255)
   \<and> encodeALPNString [replicate 256 (CHR ''a'')] = Inl range_error"
proof (intro conjI)
  show "(encodeALPNString names = Inl range_error) = (\<exists>p\<in>set names. 255 < length p)"
  proof (cases "\<exists>p\<in>set names. 255 < length p")
    case True
    then show ?thesis by (simp add: encodeALPNString_error)
  next
    case False
    then have "\<forall>p\<in>set names. length p \<le> 255" by (simp add: not_less)
    from encodeALPNString_ok [OF this] False show ?thesis by simp
  qed
  show "(\<exists>enc. encodeALPNString names = Inr enc) = (\<forall>p\<in>set names. length p \<le> 255)"
  proof (cases "\<exists>p\<in>set names. 255 < length p")
    case True
    then have "\<not> (\<forall>p\<in>set names. length p \<le> 255)" by (auto simp: not_le)
    with encodeALPNString_error [OF True] show ?thesis by simp
  next
    case False
    then have "\<forall>p\<in>set names. length p \<le> 255" by (simp add: not_less)
    from encodeALPNString_ok [OF this] this show ?thesis by simp
  qed
  show "encodeALPNString [replicate 256 (CHR ''a'')] = Inl range_error"
    by (simp add: encodeALPNString_error)
qed

theorem encodeALPNString_fails_iff_too_long_witness:
  "encodeALPNString [''h2'', replicate 300 (CHR ''x''), ''http/1.1''] = Inl range_error
   \<and> (\<exists>enc. encodeALPNString [replicate 255 (CHR ''x'')] = Inr enc)"
  using encodeALPNString_fails_iff_too_long [of "[''h2'', replicate 300 (CHR ''x''), ''http/1.1'']"]
    encodeALPNString_fails_iff_too_long [of "[replicate 255 (CHR ''x'')]"]
  by simp

section \<open>Properties of the cipher name cache\<close>

text \<open>
  C8. A lookup always returns a string and leaves the table built. For an identifier that
  is not in the table it returns the empty string; when the context or the connection
  object cannot be constructed the table is empty and every lookup returns the empty
  string. A repeated call with the same identifier gives the same result and the same
  table, whatever the engine would enumerate by then.
\<close>

theorem getCipherName_miss_is_empty:
  "(\<exists>t. snd (getCipherName engine static cipherCode) = Some t)
   \<and> (\<forall>t. snd (getCipherName engine static cipherCode) = Some t \<and> t cipherCode = None
        \<longrightarrow> fst (getCipherName engine static cipherCode) = '''')
   \<and> (SSL_CTX_new engine = None
        \<or> (\<exists>ctx. SSL_CTX_new engine = Some ctx \<and> SSL_new engine ctx = None)
        \<longrightarrow> getCipherName engine None cipherCode = ('''', Some Map.empty))
   \<and> getCipherName engine' (snd (getCipherName engine static cipherCode)) cipherCode
       = getCipherName engine static cipherCode"
proof (intro conjI allI impI)
  show "\<exists>t. snd (getCipherName engine static cipherCode) = Some t"
    by (simp add: getCipherName_def Let_def split: option.splits)
next
  fix t
  assume "snd (getCipherName engine static cipherCode) = Some t \<and> t cipherCode = None"
  then show "fst (getCipherName engine static cipherCode) = ''''"
    by (auto simp: getCipherName_def Let_def split: option.splits)
next
  assume "SSL_CTX_new engine = None
        \<or> (\<exists>ctx. SSL_CTX_new engine = Some ctx \<and> SSL_new engine ctx = None)"
  then have "getOpenSSLCipherNames engine = Map.empty"
    by (auto simp: getOpenSSLCipherNames_def)
  then show "getCipherName engine None cipherCode = ('''', Some Map.empty)"
    by (simp add: getCipherName_def)
next
  show "getCipherName engine' (snd (getCipherName engine static cipherCode)) cipherCode
       = getCipherName engine static cipherCode"
    by (simp add: getCipherName_def Let_def split: option.splits)
qed

theorem getCipherName_miss_is_empty_witness:
  "fst (getCipherName
      \<lparr>SSL_CTX_new = Some (), SSL_new = (\<lambda>ctx. Some ()),
       SSL_get_ciphers = (\<lambda>conn. [SSL_CIPHER 0x03001301 ''TLS_AES_128_GCM_SHA256'',
          SSL_CIPHER 0x0300C02F ''ECDHE-RSA-AES128-GCM-SHA256''])\<rparr>
      None 0x1302) = ''''
   \<and> getCipherName
      \<lparr>SSL_CTX_new = Some (), SSL_new = (\<lambda>ctx. None :: unit option),
       SSL_get_ciphers = (\<lambda>conn. [SSL_CIPHER 0x03001301 ''TLS_AES_128_GCM_SHA256''])\<rparr>
      None 0x1301 = ('''', Some Map.empty)"
proof -
  let ?e = "\<lparr>SSL_CTX_new = Some (), SSL_new = (\<lambda>ctx. Some ()),
       SSL_get_ciphers = (\<lambda>conn. [SSL_CIPHER 0x03001301 ''TLS_AES_128_GCM_SHA256'',
          SSL_CIPHER 0x0300C02F ''ECDHE-RSA-AES128-GCM-SHA256''])\<rparr>"
  let ?f = "\<lparr>SSL_CTX_new = Some (), SSL_new = (\<lambda>ctx. None :: unit option),
       SSL_get_ciphers = (\<lambda>conn. [SSL_CIPHER 0x03001301 ''TLS_AES_128_GCM_SHA256''])\<rparr>"
  obtain t where t: "snd (getCipherName ?e None 0x1302) = Some t"
    using getCipherName_miss_is_empty [of ?e None "0x1302", THEN conjunct1] by blast
  have "getOpenSSLCipherNames ?e 0x1302 = None"
    by (simp add: getOpenSSLCipherNames_def)
  then have "t 0x1302 = None"
    using t by (auto simp: getCipherName_def Let_def split: option.splits)
  with t have a: "fst (getCipherName ?e None 0x1302) = ''''"
    using getCipherName_miss_is_empty [of ?e None "0x1302", THEN conjunct2, THEN conjunct1]
    by blast
  have b: "getCipherName ?f None 0x1301 = ('''', Some Map.empty)"
    using getCipherName_miss_is_empty [of ?f None "0x1301" ?f] by simp
  from a b show ?thesis by simp
qed

section \<open>Properties of the PEM subject name scan\<close>

lemma forEachX509_Nil: "forEachX509 [] cb acc = acc"
  by (subst forEachX509.simps) (simp add: PEM_read_bio_X509_def)

lemma forEachX509_None: "forEachX509 (None # rest) cb acc = acc"
  by (subst forEachX509.simps) (simp add: PEM_read_bio_X509_def)

lemma forEachX509_Some: "forEachX509 (Some c # rest) cb acc = forEachX509 rest cb (cb c acc)"
  by (subst forEachX509.simps) (simp add: PEM_read_bio_X509_def)

lemma forEachX509_fold:
  "forEachX509 b cb acc = fold cb (map the (takeWhile (\<lambda>r. r \<noteq> None) b)) acc"
proof (induction b arbitrary: acc)
  case Nil
  show ?case by (simp add: forEachX509_Nil)
next
  case (Cons r b)
  show ?case
  proof (cases r)
    case None
    then show ?thesis by (simp add: forEachX509_None)
  next
    case (Some c)
    then show ?thesis by (simp add: forEachX509_Some Cons.IH)
  qed
qed

lemma fold_push_back: "fold (\<lambda>x ret. ret @ [f x]) xs acc = acc @ map f xs"
  by (induction xs arbitrary: acc) simp_all

lemma getSubjectNamesFromBIO_eq:
  "getSubjectNamesFromBIO b = map (\<lambda>r. subject_name (the r)) (takeWhile (\<lambda>r. r \<noteq> None) b)"
  by (simp add: getSubjectNamesFromBIO_def forEachX509_fold fold_push_back X509_NAME_dup_def
      comp_def)

text \<open>
  C9. The call throws exactly when the file cannot be opened. Once it is open, the result
  is the subject names of the certificates read before the first failed decode or the end
  of the file; a file that holds no certificate gives the empty sequence.
\<close>

theorem subjectNamesInPEMFile_fails_iff_unopenable:
  "(\<exists>e. subjectNamesInPEMFile files filename = Inl e) = (BIO_new_file files filename = None)
   \<and> (\<forall>b. BIO_new_file files filename = Some b
        \<longrightarrow> subjectNamesInPEMFile files filename
              = Inr (map (\<lambda>r. subject_name (the r)) (takeWhile (\<lambda>r. r \<noteq> None) b)))
   \<and> (\<forall>b. BIO_new_file files filename = Some b \<and> (b = [] \<or> (\<exists>rest. b = None # rest))
        \<longrightarrow> subjectNamesInPEMFile files filename = Inr [])"
  by (auto simp: subjectNamesInPEMFile_def getSubjectNamesFromBIO_eq split: option.splits)

theorem subjectNamesInPEMFile_fails_iff_unopenable_witness:
  "(\<exists>e. subjectNamesInPEMFile
        [''empty.pem'' \<mapsto> [], ''ca.pem'' \<mapsto> [Some \<lparr>subject_alt_name = None, subject_name = ''CN=root''\<rparr>,
            None, Some \<lparr>subject_alt_name = None, subject_name = ''CN=late''\<rparr>]]
        ''missing.pem'' = Inl e)
   \<and> subjectNamesInPEMFile
        [''empty.pem'' \<mapsto> [], ''ca.pem'' \<mapsto> [Some \<lparr>subject_alt_name = None, subject_name = ''CN=root''\<rparr>,
            None, Some \<lparr>subject_alt_name = None, subject_name = ''CN=late''\<rparr>]]
        ''empty.pem'' = Inr []
   \<and> subjectNamesInPEMFile
        [''empty.pem'' \<mapsto> [], ''ca.pem'' \<mapsto> [Some \<lparr>subject_alt_name = None, subject_name = ''CN=root''\<rparr>,
            None, Some \<lparr>subject_alt_name = None, subject_name = ''CN=late''\<rparr>]]
        ''ca.pem'' = Inr [''CN=root'']"
proof -
  let ?ca = "[Some \<lparr>subject_alt_name = None, subject_name = ''CN=root''\<rparr>,
            None, Some \<lparr>subject_alt_name = None, subject_name = ''CN=late''\<rparr>]"
  let ?files = "[''empty.pem'' \<mapsto> [], ''ca.pem'' \<mapsto> ?ca]"
  have o1: "BIO_new_file ?files ''missing.pem'' = None" by (simp add: BIO_new_file_def)
  have o2: "BIO_new_file ?files ''empty.pem'' = Some []" by (simp add: BIO_new_file_def)
  have o3: "BIO_new_file ?files ''ca.pem'' = Some ?ca" by (simp add: BIO_new_file_def)
  have a: "\<exists>e. subjectNamesInPEMFile ?files ''missing.pem'' = Inl e"
    using subjectNamesInPEMFile_fails_iff_unopenable [of ?files "''missing.pem''", THEN conjunct1]
      o1 by simp
  have b: "subjectNamesInPEMFile ?files ''empty.pem'' = Inr []"
    using subjectNamesInPEMFile_fails_iff_unopenable
      [of ?files "''empty.pem''", THEN conjunct2, THEN conjunct2, rule_format, of "[]"] o2
    by simp
  have c: "subjectNamesInPEMFile ?files ''ca.pem'' = Inr [''CN=root'']"
    using subjectNamesInPEMFile_fails_iff_unopenable
      [of ?files "''ca.pem''", THEN conjunct2, THEN conjunct1, rule_format, of ?ca] o3
    by simp
  from a b c show ?thesis by simp
qed

end
